theory Spec2Isabelle
  imports Main "HOL-Library.Sublist"
begin

section \<open>The layer-isolated layout export script and the logging helper\<close>

text \<open>
  The repository holds two Python files.  \<^verbatim>\<open>qgis/qgis_layout_export.py\<close> is a
  straight-line script that drives the object model of the host GIS application: it
  partitions the layers of the loaded project into raster and non-raster layers and, for
  every raster layer, hides all raster layers, shows the current one, shows every non-raster
  layer, reloads the layers, exports the layout to a PNG named after the raster layer and
  prints a line.  \<^verbatim>\<open>python/notebooks/helpers.py\<close> holds \<^verbatim>\<open>configure_logger\<close>.

  The host application, the file system and the console are state that the script
  mutates; the model threads them through every step as a record.  A Python exception is
  a value \<open>Inl e\<close> of the result type.
\<close>

subsection \<open>Data of the host application\<close>

text \<open>The values of \<^verbatim>\<open>QgsMapLayer.type()\<close>; the script only compares with \<^verbatim>\<open>RasterLayer\<close>.\<close>

datatype map_layer_type =
    VectorLayer
  | RasterLayer
  | PluginLayer
  | MeshLayer
  | VectorTileLayer
  | AnnotationLayer
  | PointCloudLayer
  | GroupLayer
  | TiledSceneLayer

text \<open>A map layer, as far as the script reads it: \<^verbatim>\<open>id()\<close>, \<^verbatim>\<open>name()\<close> and \<^verbatim>\<open>type()\<close>.\<close>

record layer =
  layer_id :: string
  layer_name :: string
  layer_type :: map_layer_type

text \<open>
  The loaded project, as far as the script only reads it: \<open>mapLayers\<close> is
  \<^verbatim>\<open>project.mapLayers().values()\<close> in its iteration order, \<open>layouts\<close> the names of the
  print layouts that the layout manager knows.  \<^verbatim>\<open>mapLayers()\<close> is a dictionary keyed by
  layer id, so the ids of a project's layers are pairwise distinct; the theorems that need
  this say so (\<open>distinct (map layer_id (mapLayers p))\<close>).
\<close>

record project =
  mapLayers :: "layer list"
  layouts :: "string list"

text \<open>
  What an exported picture shows: the layout it was made from and the layers whose
  layer-tree node was checked when the exporter ran, in the project's layer order.
\<close>

datatype image = Image string "layer list"

text \<open>The calls into the host and the operating system, in the order they are made.\<close>

datatype call =
    MakeDirs string
  | SetItemVisibilityChecked string bool
  | ReloadAllLayers
  | ExportToImage string

text \<open>
  The mutable world of the script.
  \<^item> \<open>layerTree\<close>: the layer tree root; \<open>layerTree h i\<close> is \<open>None\<close> when
    \<^verbatim>\<open>root.findLayer(i)\<close> finds no node, and otherwise the node's
    \<^verbatim>\<open>itemVisibilityChecked\<close> flag.
  \<^item> \<open>dirs\<close>, \<open>files\<close>: the directories and the image files of the file system, keyed
    by resolved path (see \<open>resolve\<close>).
  \<^item> \<open>stdout\<close>: the lines printed so far.
  \<^item> \<open>calls\<close>: the host and operating-system calls made so far.
\<close>

record host =
  layerTree :: "string \<rightharpoonup> bool"
  dirs :: "string list set"
  files :: "string list \<rightharpoonup> image"
  stdout :: "string list"
  calls :: "call list"

datatype error =
    AttributeError
  | FileExistsError
  | FileNotFoundError
  | NotADirectoryError

subsection \<open>Paths\<close>

text \<open>\<^verbatim>\<open>str.split('/')\<close>.\<close>

fun split_sep :: "string \<Rightarrow> string list" where
  "split_sep [] = [[]]"
| "split_sep (c # cs) =
     (if c = CHR ''/'' then [] # split_sep cs
      else (case split_sep cs of [] \<Rightarrow> [[c]] | w # ws \<Rightarrow> (c # w) # ws))"

text \<open>
  How the operating system reads a POSIX path: the components between slashes, empty
  components and \<^verbatim>\<open>.\<close> dropped, with a leading \<^verbatim>\<open>/\<close> component for an absolute path.
  The empty list is the working directory.  Symbolic links and \<^verbatim>\<open>..\<close> are outside the
  model (\<^verbatim>\<open>..\<close> is kept as a component).
\<close>

definition resolve :: "string \<Rightarrow> string list" where
  "resolve p =
     (if take 1 p = ''/'' then [''/''] else []) @
     filter (\<lambda>c. c \<noteq> [] \<and> c \<noteq> ''.'') (split_sep p)"

text \<open>
  \<^verbatim>\<open>os.path.join(a, b)\<close> of \<^verbatim>\<open>posixpath\<close> with two arguments: a second argument that
  starts with the separator replaces the first; no separator is added after an empty first
  argument or one that ends with the separator.
\<close>

definition path_join :: "string \<Rightarrow> string \<Rightarrow> string" where
  "path_join a b =
     (if take 1 b = ''/'' then b
      else if a = [] \<or> last a = CHR ''/'' then a @ b
      else a @ ''/'' @ b)"

text \<open>\<^verbatim>\<open>out_path = os.path.join(output_folder, f"{raster_layer.name()}.png")\<close>\<close>

definition out_path :: "string \<Rightarrow> layer \<Rightarrow> string" where
  "out_path output_folder raster_layer = path_join output_folder (layer_name raster_layer @ ''.png'')"

subsection \<open>The calls the script makes\<close>

text \<open>The working directory and the root directory always exist.\<close>

definition isdir :: "host \<Rightarrow> string list \<Rightarrow> bool" where
  "isdir h q = (q = [] \<or> q = [''/''] \<or> q \<in> dirs h)"

text \<open>
  \<^verbatim>\<open>os.makedirs(name, exist_ok=exist_ok)\<close>, by its documented behaviour: it creates the
  leaf directory and every intermediate directory that is missing.  An existing target
  directory raises \<^verbatim>\<open>FileExistsError\<close> unless \<open>exist_ok\<close>; a target that exists as a
  file raises \<^verbatim>\<open>FileExistsError\<close> in either case, a file on the way to the target
  \<^verbatim>\<open>NotADirectoryError\<close>, and the empty path \<^verbatim>\<open>FileNotFoundError\<close>.  Permissions are
  outside the model.  The target and its parents are the non-empty prefixes of the resolved
  path, \<open>tl (prefixes p)\<close>.
\<close>

definition makedirs :: "string \<Rightarrow> bool \<Rightarrow> host \<Rightarrow> error + host" where
  "makedirs name exist_ok h =
     (let p = resolve name; h' = h\<lparr>calls := calls h @ [MakeDirs name]\<rparr> in
      if name = [] then Inl FileNotFoundError
      else if isdir h p then (if exist_ok then Inr h' else Inl FileExistsError)
      else if files h p \<noteq> None then Inl FileExistsError
      else if list_ex (\<lambda>q. files h q \<noteq> None) (tl (prefixes p)) then Inl NotADirectoryError
      else Inr (h'\<lparr>dirs := dirs h \<union> set (tl (prefixes p))\<rparr>))"

text \<open>\<^verbatim>\<open>layout_manager.layoutByName(name)\<close>: the layout, or null.\<close>

definition layoutByName :: "project \<Rightarrow> string \<Rightarrow> string option" where
  "layoutByName p n = (if n \<in> set (layouts p) then Some n else None)"

text \<open>
  \<^verbatim>\<open>root.findLayer(i).setItemVisibilityChecked(b)\<close>.  When the tree has no node for the
  id, \<^verbatim>\<open>findLayer\<close> returns \<^verbatim>\<open>None\<close> and the attribute access raises.
\<close>

definition setItemVisibilityChecked :: "string \<Rightarrow> bool \<Rightarrow> host \<Rightarrow> error + host" where
  "setItemVisibilityChecked i b h =
     (case layerTree h i of
        None \<Rightarrow> Inl AttributeError
      | Some _ \<Rightarrow>
          Inr (h\<lparr>layerTree := (layerTree h)(i \<mapsto> b),
                 calls := calls h @ [SetItemVisibilityChecked i b]\<rparr>))"

text \<open>
  The two inner loops,
  \<^verbatim>\<open>for layer in layers: root.findLayer(layer.id()).setItemVisibilityChecked(b)\<close>.
\<close>

fun set_all :: "bool \<Rightarrow> layer list \<Rightarrow> host \<Rightarrow> error + host" where
  "set_all b [] h = Inr h"
| "set_all b (l # ls) h =
     (case setItemVisibilityChecked (layer_id l) b h of
        Inl e \<Rightarrow> Inl e
      | Inr h' \<Rightarrow> set_all b ls h')"

text \<open>
  \<^verbatim>\<open>project.reloadAllLayers()\<close> re-reads the data sources of the layers; it leaves the
  layer tree as it is.
\<close>

definition reloadAllLayers :: "host \<Rightarrow> host" where
  "reloadAllLayers h = h\<lparr>calls := calls h @ [ReloadAllLayers]\<rparr>"

text \<open>
  A layer is visible when its layer-tree node is checked.  The script reads and writes
  only the node's own flag; group nodes above a layer are outside the model.
\<close>

definition isVisible :: "host \<Rightarrow> layer \<Rightarrow> bool" where
  "isVisible h l = (layerTree h (layer_id l) = Some True)"

definition visible_layers :: "project \<Rightarrow> host \<Rightarrow> layer set" where
  "visible_layers p h = set (filter (isVisible h) (mapLayers p))"

text \<open>
  Where the exporter can save a file: the resolved path names something, its directory
  exists, and it is not itself a directory.
\<close>

definition writable :: "host \<Rightarrow> string list \<Rightarrow> bool" where
  "writable h q = (q \<noteq> [] \<and> isdir h (butlast q) \<and> \<not> isdir h q)"

text \<open>
  \<^verbatim>\<open>QgsLayoutExporter(layout).exportToImage(out_path, ImageExportSettings())\<close>.  The
  exporter is the host's; by its contract it writes the picture of the layout, with the
  layers that are visible now, to the path, replacing a file that is there.  It creates no
  directory: with a null layout handle, or when the directory of the path is missing or
  the path is a directory, it returns an error code and writes nothing.  It raises in no
  case, and the script ignores the code.
\<close>

definition exportToImage :: "string option \<Rightarrow> string \<Rightarrow> project \<Rightarrow> host \<Rightarrow> host" where
  "exportToImage layout path p h =
     (let h' = h\<lparr>calls := calls h @ [ExportToImage path]\<rparr> in
      case layout of
        None \<Rightarrow> h'
      | Some n \<Rightarrow>
          if writable h (resolve path)
          then h'\<lparr>files := (files h)(resolve path \<mapsto> Image n (filter (isVisible h) (mapLayers p)))\<rparr>
          else h')"

definition print :: "string \<Rightarrow> host \<Rightarrow> host" where
  "print s h = h\<lparr>stdout := stdout h @ [s]\<rparr>"

subsection \<open>The script\<close>

definition raster_layers :: "project \<Rightarrow> layer list" where
  "raster_layers p = filter (\<lambda>layer. layer_type layer = RasterLayer) (mapLayers p)"

definition vector_layers :: "project \<Rightarrow> layer list" where
  "vector_layers p = filter (\<lambda>layer. layer_type layer \<noteq> RasterLayer) (mapLayers p)"

text \<open>
  The first half of the loop body (lines 38 to 49): hide all raster layers, show the
  current one, show all vector layers, reload.  Its result is the state in which the
  exporter runs.
\<close>

definition isolate_raster_layer :: "project \<Rightarrow> layer \<Rightarrow> host \<Rightarrow> error + host" where
  "isolate_raster_layer p raster_layer h =
     (case set_all False (raster_layers p) h of
        Inl e \<Rightarrow> Inl e
      | Inr h1 \<Rightarrow>
          (case setItemVisibilityChecked (layer_id raster_layer) True h1 of
             Inl e \<Rightarrow> Inl e
           | Inr h2 \<Rightarrow>
               (case set_all True (vector_layers p) h2 of
                  Inl e \<Rightarrow> Inl e
                | Inr h3 \<Rightarrow> Inr (reloadAllLayers h3))))"

text \<open>The whole loop body (lines 38 to 56).\<close>

definition export_raster_layer ::
  "string option \<Rightarrow> string \<Rightarrow> project \<Rightarrow> layer \<Rightarrow> host \<Rightarrow> error + host" where
  "export_raster_layer layout output_folder p raster_layer h =
     (case isolate_raster_layer p raster_layer h of
        Inl e \<Rightarrow> Inl e
      | Inr h4 \<Rightarrow>
          Inr (print (''Saved: '' @ out_path output_folder raster_layer)
                 (exportToImage layout (out_path output_folder raster_layer) p h4)))"

text \<open>\<^verbatim>\<open>for raster_layer in raster_layers: ...\<close>\<close>

fun export_loop ::
  "string option \<Rightarrow> string \<Rightarrow> project \<Rightarrow> layer list \<Rightarrow> host \<Rightarrow> error + host" where
  "export_loop layout output_folder p [] h = Inr h"
| "export_loop layout output_folder p (raster_layer # rest) h =
     (case export_raster_layer layout output_folder p raster_layer h of
        Inl e \<Rightarrow> Inl e
      | Inr h' \<Rightarrow> export_loop layout output_folder p rest h')"

text \<open>
  The script from line 10 on, for a loaded project \<open>p\<close> and the world \<open>h\<close> it starts in.
  The layout name and the output folder are the two string constants of the script
  (\<^verbatim>\<open>"Layout_Name"\<close> and \<^verbatim>\<open>"desired_output_directory"\<close>, placeholders that the user
  replaces), taken as parameters.
\<close>

definition qgis_layout_export :: "string \<Rightarrow> string \<Rightarrow> project \<Rightarrow> host \<Rightarrow> error + host" where
  "qgis_layout_export layout_name output_folder p h =
     (case makedirs output_folder True h of
        Inl e \<Rightarrow> Inl e
      | Inr h1 \<Rightarrow>
          (case export_loop (layoutByName p layout_name) output_folder p (raster_layers p) h1 of
             Inl e \<Rightarrow> Inl e
           | Inr h2 \<Rightarrow> Inr (print ''All styled images exported!'' h2)))"


subsection \<open>The logging helper\<close>

text \<open>
  \<^verbatim>\<open>configure_logger\<close> calls two functions of the logging library on its global logger.
  The logger keeps its handlers in a dictionary keyed by handler id and a counter for the
  next id.  \<^verbatim>\<open>logger.remove()\<close> without an id removes every handler;
  \<^verbatim>\<open>logger.add(sink, ...)\<close> registers one handler under the next id and returns the id.
\<close>

datatype sink = Stdout | Stderr | FileSink string

record handler =
  sink :: sink
  colorize :: "bool option"
  format :: string

record logger =
  handlers :: "(nat \<times> handler) list"
  handlers_count :: nat

definition logger_remove :: "logger \<Rightarrow> logger" where
  "logger_remove L = L\<lparr>handlers := []\<rparr>"

definition logger_add :: "handler \<Rightarrow> logger \<Rightarrow> nat \<times> logger" where
  "logger_add new_handler L =
     (handlers_count L,
      L\<lparr>handlers := handlers L @ [(handlers_count L, new_handler)],
        handlers_count := Suc (handlers_count L)\<rparr>)"

definition configure_logger :: "logger \<Rightarrow> logger" where
  "configure_logger L =
     snd (logger_add
       \<lparr>sink = Stdout, colorize = Some True,
        format = ''<green>{time:HH:mm:ss}</green> | '' @
                 ''<level>{level}</level> | '' @
                 ''<level>{message}</level>''\<rparr>
       (logger_remove L))"

text \<open>The sink configuration of a logger: its handlers without their ids.\<close>

definition sinks :: "logger \<Rightarrow> handler list" where
  "sinks L = map snd (handlers L)"

subsection \<open>Observations used to state the properties\<close>

text \<open>Every layer of the project has a node in the layer tree.\<close>

definition layers_in_tree :: "project \<Rightarrow> host \<Rightarrow> bool" where
  "layers_in_tree p h = list_all (\<lambda>l. layerTree h (layer_id l) \<noteq> None) (mapLayers p)"

text \<open>
  The output directory can be made: the path is not empty, and either it is a directory
  already or no file sits at it or on the way to it.
\<close>

definition creatable :: "host \<Rightarrow> string \<Rightarrow> bool" where
  "creatable h name =
     (name \<noteq> [] \<and>
      (isdir h (resolve name) \<or>
       \<not> list_ex (\<lambda>q. files h q \<noteq> None) (tl (prefixes (resolve name)))))"

text \<open>The effect of one call on the layer tree, to replay a sequence of calls.\<close>

fun apply_call :: "call \<Rightarrow> (string \<rightharpoonup> bool) \<Rightarrow> (string \<rightharpoonup> bool)" where
  "apply_call (SetItemVisibilityChecked i b) t = t(i \<mapsto> b)"
| "apply_call (MakeDirs n) t = t"
| "apply_call ReloadAllLayers t = t"
| "apply_call (ExportToImage n) t = t"


text \<open>The layer tree after the first half of the loop body for raster layer \<open>R\<close>.\<close>

definition isolated_tree :: "project \<Rightarrow> layer \<Rightarrow> (string \<rightharpoonup> bool) \<Rightarrow> (string \<rightharpoonup> bool)" where
  "isolated_tree p R t =
     (\<lambda>i. if i \<in> layer_id ` set (vector_layers p) then Some True
          else if i = layer_id R then Some True
          else if i \<in> layer_id ` set (raster_layers p) then Some False
          else t i)"

text \<open>The files after the export of the loop body for raster layer \<open>R\<close>, started in \<open>h\<close>.\<close>

definition exported_files ::
  "string option \<Rightarrow> string \<Rightarrow> project \<Rightarrow> layer \<Rightarrow> host \<Rightarrow> (string list \<rightharpoonup> image)" where
  "exported_files lay f p R h =
     (case lay of
        None \<Rightarrow> files h
      | Some n \<Rightarrow>
          if writable h (resolve (out_path f R))
          then (files h)(resolve (out_path f R) \<mapsto>
                 Image n (filter (\<lambda>l. isolated_tree p R (layerTree h) (layer_id l) = Some True)
                            (mapLayers p)))
          else files h)"

text \<open>The state in which the loop starts when the output directory could be made.\<close>

definition made :: "host \<Rightarrow> string \<Rightarrow> host" where
  "made h f =
     h\<lparr>dirs := (if isdir h (resolve f) then dirs h
                 else dirs h \<union> set (tl (prefixes (resolve f)))),
       calls := calls h @ [MakeDirs f]\<rparr>"

text \<open>The calls of the first half of the loop body for raster layer \<open>R\<close>.\<close>

definition isolate_calls :: "project \<Rightarrow> layer \<Rightarrow> call list" where
  "isolate_calls p R =
     map (\<lambda>l. SetItemVisibilityChecked (layer_id l) False) (raster_layers p) @
     [SetItemVisibilityChecked (layer_id R) True] @
     map (\<lambda>l. SetItemVisibilityChecked (layer_id l) True) (vector_layers p) @
     [ReloadAllLayers]"

subsection \<open>A small project\<close>

text \<open>
  Two raster layers that share the name \<^verbatim>\<open>dem\<close> and one vector layer that is hidden when
  the project is loaded.
\<close>

definition dem1 :: layer where
  "dem1 = \<lparr>layer_id = ''r1'', layer_name = ''dem'', layer_type = RasterLayer\<rparr>"

definition roads :: layer where
  "roads = \<lparr>layer_id = ''v1'', layer_name = ''roads'', layer_type = VectorLayer\<rparr>"

definition dem2 :: layer where
  "dem2 = \<lparr>layer_id = ''r2'', layer_name = ''dem'', layer_type = RasterLayer\<rparr>"

definition example_project :: project where
  "example_project = \<lparr>mapLayers = [dem1, roads, dem2], layouts = [''Layout_Name'']\<rparr>"

definition vector_project :: project where
  "vector_project = \<lparr>mapLayers = [roads], layouts = [''Layout_Name'']\<rparr>"

definition example_host :: host where
  "example_host =
     \<lparr>layerTree = [''r1'' \<mapsto> True, ''v1'' \<mapsto> False, ''r2'' \<mapsto> True],
      dirs = {}, files = Map.empty, stdout = [], calls = []\<rparr>"

definition other_host :: host where
  "other_host =
     \<lparr>layerTree = [''r1'' \<mapsto> False, ''v1'' \<mapsto> True, ''r2'' \<mapsto> False],
      dirs = {[''out'']}, files = Map.empty, stdout = [''loaded''], calls = []\<rparr>"







section \<open>Properties of the steps\<close>

lemma set_all_Inr:
  "list_all (\<lambda>l. layerTree h (layer_id l) \<noteq> None) ls \<Longrightarrow>
   set_all b ls h =
     Inr (h\<lparr>layerTree := (\<lambda>i. if i \<in> layer_id ` set ls then Some b else layerTree h i),
            calls := calls h @ map (\<lambda>l. SetItemVisibilityChecked (layer_id l) b) ls\<rparr>)"
proof (induction ls arbitrary: h)
  case Nil
  then show ?case by simp
next
  case (Cons l ls)
  from Cons.prems obtain v where v: "layerTree h (layer_id l) = Some v" by auto
  let ?h = "h\<lparr>layerTree := (layerTree h)(layer_id l \<mapsto> b),
              calls := calls h @ [SetItemVisibilityChecked (layer_id l) b]\<rparr>"
  have step: "setItemVisibilityChecked (layer_id l) b h = Inr ?h"
    by (simp add: setItemVisibilityChecked_def v)
  have "list_all (\<lambda>l. layerTree ?h (layer_id l) \<noteq> None) ls"
    using Cons.prems by (simp add: list_all_iff)
  from Cons.IH [OF this] show ?case
    by (simp add: step fun_eq_iff)
qed

lemma nodes_of_sublist:
  "layers_in_tree p h \<Longrightarrow> set ls \<subseteq> set (mapLayers p) \<Longrightarrow>
   list_all (\<lambda>l. layerTree h (layer_id l) \<noteq> None) ls"
  by (auto simp: layers_in_tree_def list_all_iff)

lemma raster_layers_subset: "set (raster_layers p) \<subseteq> set (mapLayers p)"
  by (simp add: raster_layers_def)

lemma vector_layers_subset: "set (vector_layers p) \<subseteq> set (mapLayers p)"
  by (simp add: vector_layers_def)

lemma isolate_raster_layer_Inr:
  assumes t: "layers_in_tree p h" and R: "R \<in> set (mapLayers p)"
  shows "isolate_raster_layer p R h =
           Inr (h\<lparr>layerTree := isolated_tree p R (layerTree h),
                  calls := calls h @ isolate_calls p R\<rparr>)"
proof -
  let ?h1 = "h\<lparr>layerTree := (\<lambda>i. if i \<in> layer_id ` set (raster_layers p) then Some False else layerTree h i),
              calls := calls h @ map (\<lambda>l. SetItemVisibilityChecked (layer_id l) False) (raster_layers p)\<rparr>"
  have s1: "set_all False (raster_layers p) h = Inr ?h1"
    by (rule set_all_Inr) (rule nodes_of_sublist [OF t raster_layers_subset])
  let ?h2 = "?h1\<lparr>layerTree := (layerTree ?h1)(layer_id R \<mapsto> True),
              calls := calls ?h1 @ [SetItemVisibilityChecked (layer_id R) True]\<rparr>"
  from t R have "layerTree h (layer_id R) \<noteq> None"
    by (auto simp: layers_in_tree_def list_all_iff)
  then have s2: "setItemVisibilityChecked (layer_id R) True ?h1 = Inr ?h2"
    by (auto simp: setItemVisibilityChecked_def)
  have "list_all (\<lambda>l. layerTree ?h2 (layer_id l) \<noteq> None) (vector_layers p)"
    using nodes_of_sublist [OF t vector_layers_subset] by (auto simp: list_all_iff)
  note s3 = set_all_Inr [OF this, of True]
  show ?thesis
    unfolding isolate_raster_layer_def s1 sum.case s2 s3
    by (simp add: reloadAllLayers_def isolated_tree_def isolate_calls_def fun_eq_iff)
qed


lemma layer_id_inj:
  "distinct (map layer_id (mapLayers p)) \<Longrightarrow> l \<in> set (mapLayers p) \<Longrightarrow>
   l' \<in> set (mapLayers p) \<Longrightarrow> layer_id l = layer_id l' \<Longrightarrow> l = l'"
  by (auto simp: distinct_map dest: inj_onD)

lemma isolated_tree_visible:
  assumes d: "distinct (map layer_id (mapLayers p))"
    and R: "R \<in> set (raster_layers p)" and l: "l \<in> set (mapLayers p)"
  shows "(isolated_tree p R t (layer_id l) = Some True) = (l = R \<or> layer_type l \<noteq> RasterLayer)"
proof (cases "layer_type l = RasterLayer")
  case False
  with l have "l \<in> set (vector_layers p)" by (simp add: vector_layers_def)
  then have "layer_id l \<in> layer_id ` set (vector_layers p)" by (rule imageI)
  with False show ?thesis by (simp add: isolated_tree_def)
next
  case True
  have R': "R \<in> set (mapLayers p)" using R by (simp add: raster_layers_def)
  have "layer_id l \<notin> layer_id ` set (vector_layers p)"
  proof
    assume "layer_id l \<in> layer_id ` set (vector_layers p)"
    then obtain v where v: "v \<in> set (vector_layers p)" "layer_id l = layer_id v" by auto
    from v(1) have "v \<in> set (mapLayers p)" "layer_type v \<noteq> RasterLayer"
      by (simp_all add: vector_layers_def)
    with layer_id_inj [OF d l this(1) v(2)] True show False by simp
  qed
  moreover have "(layer_id l = layer_id R) = (l = R)"
    using layer_id_inj [OF d l R'] by auto
  moreover have "layer_id l \<in> layer_id ` set (raster_layers p)"
    using l True by (simp add: raster_layers_def)
  ultimately show ?thesis using True by (simp add: isolated_tree_def)
qed

lemma isolated_filter:
  assumes d: "distinct (map layer_id (mapLayers p))" and R: "R \<in> set (raster_layers p)"
  shows "filter (\<lambda>l. isolated_tree p R t (layer_id l) = Some True) (mapLayers p) =
         filter (\<lambda>l. l = R \<or> layer_type l \<noteq> RasterLayer) (mapLayers p)"
  by (rule filter_cong [OF refl]) (rule isolated_tree_visible [OF d R])

lemma isolated_tree_absorb:
  "R' \<in> set (raster_layers p) \<Longrightarrow>
   isolated_tree p R (isolated_tree p R' t) = isolated_tree p R t"
  by (auto simp: isolated_tree_def fun_eq_iff)

lemma writable_dirs: "dirs h' = dirs h \<Longrightarrow> writable h' q = writable h q"
  by (simp add: writable_def isdir_def)

lemma export_raster_layer_Inr:
  assumes t: "layers_in_tree p h" and R: "R \<in> set (mapLayers p)"
  shows "export_raster_layer lay f p R h =
           Inr (h\<lparr>layerTree := isolated_tree p R (layerTree h),
                  files := exported_files lay f p R h,
                  stdout := stdout h @ [''Saved: '' @ out_path f R],
                  calls := calls h @ isolate_calls p R @ [ExportToImage (out_path f R)]\<rparr>)"
proof -
  let ?h4 = "h\<lparr>layerTree := isolated_tree p R (layerTree h),
               calls := calls h @ isolate_calls p R\<rparr>"
  have w: "writable ?h4 q = writable h q" for q by (rule writable_dirs) simp
  show ?thesis
    unfolding export_raster_layer_def isolate_raster_layer_Inr [OF t R] sum.case
    by (cases lay)
      (simp_all add: print_def exportToImage_def exported_files_def isVisible_def [abs_def] w Let_def)
qed

lemma export_loop_append:
  "export_loop lay f p (xs @ ys) h =
     (case export_loop lay f p xs h of Inl e \<Rightarrow> Inl e | Inr h' \<Rightarrow> export_loop lay f p ys h')"
  by (induction xs arbitrary: h) (auto split: sum.splits)

lemma export_loop_Inr:
  assumes "layers_in_tree p h" and "set rs \<subseteq> set (raster_layers p)"
  shows "\<exists>h'. export_loop lay f p rs h = Inr h' \<and> layers_in_tree p h' \<and> dirs h' = dirs h \<and>
           calls h' = calls h @ concat (map (\<lambda>R. isolate_calls p R @ [ExportToImage (out_path f R)]) rs) \<and>
           stdout h' = stdout h @ map (\<lambda>R. ''Saved: '' @ out_path f R) rs \<and>
           layerTree h' = (if rs = [] then layerTree h else isolated_tree p (last rs) (layerTree h))"
  using assms
proof (induction rs arbitrary: h)
  case Nil
  then show ?case by simp
next
  case (Cons R rs)
  from Cons.prems have R: "R \<in> set (raster_layers p)" and rs: "set rs \<subseteq> set (raster_layers p)"
    by simp_all
  from R have R': "R \<in> set (mapLayers p)" by (simp add: raster_layers_def)
  let ?h = "h\<lparr>layerTree := isolated_tree p R (layerTree h),
              files := exported_files lay f p R h,
              stdout := stdout h @ [''Saved: '' @ out_path f R],
              calls := calls h @ isolate_calls p R @ [ExportToImage (out_path f R)]\<rparr>"
  have step: "export_raster_layer lay f p R h = Inr ?h"
    by (rule export_raster_layer_Inr [OF Cons.prems(1) R'])
  have "layers_in_tree p ?h"
    using Cons.prems(1) by (auto simp: layers_in_tree_def list_all_iff isolated_tree_def)
  from Cons.IH [OF this rs] obtain h' where h':
    "export_loop lay f p rs ?h = Inr h'" "layers_in_tree p h'" "dirs h' = dirs ?h"
    "calls h' = calls ?h @ concat (map (\<lambda>R. isolate_calls p R @ [ExportToImage (out_path f R)]) rs)"
    "stdout h' = stdout ?h @ map (\<lambda>R. ''Saved: '' @ out_path f R) rs"
    "layerTree h' = (if rs = [] then layerTree ?h else isolated_tree p (last rs) (layerTree ?h))"
    by blast
  have "export_loop lay f p (R # rs) h = Inr h'"
    unfolding export_loop.simps step sum.case by (rule h'(1))
  moreover have "layerTree h' = isolated_tree p (last (R # rs)) (layerTree h)"
    using h'(6) by (simp add: isolated_tree_absorb [OF R])
  ultimately show ?case using h'(2-5) by simp
qed



subsection \<open>The run\<close>

lemma makedirs_Inr:
  "creatable h f \<Longrightarrow>
   makedirs f True h =
     Inr (h\<lparr>dirs := (if isdir h (resolve f) then dirs h
                      else dirs h \<union> set (tl (prefixes (resolve f)))),
            calls := calls h @ [MakeDirs f]\<rparr>)"
proof -
  assume c: "creatable h f"
  have last_prefix: "resolve f \<in> set (tl (prefixes (resolve f)))" if "resolve f \<noteq> []"
    using that by (cases "resolve f") simp_all
  show ?thesis
  proof (cases "isdir h (resolve f)")
    case True
    with c show ?thesis by (simp add: makedirs_def creatable_def Let_def)
  next
    case False
    then have ne: "resolve f \<noteq> []" by (auto simp: isdir_def)
    from c False have nofile: "\<not> list_ex (\<lambda>q. files h q \<noteq> None) (tl (prefixes (resolve f)))"
      by (simp add: creatable_def)
    with last_prefix [OF ne] have "files h (resolve f) = None"
      by (auto simp: list_ex_iff)
    with c False nofile show ?thesis
      by (simp add: makedirs_def creatable_def Let_def)
  qed
qed

lemma makedirs_Inl: "\<not> creatable h f \<Longrightarrow> \<exists>e. makedirs f True h = Inl e"
  by (auto simp: makedirs_def creatable_def Let_def)

lemma qgis_layout_export_Inr:
  assumes t: "layers_in_tree p h" and c: "creatable h f"
  shows "\<exists>h'. qgis_layout_export n f p h = Inr h' \<and>
           calls h' = calls h @ MakeDirs f #
             concat (map (\<lambda>R. isolate_calls p R @ [ExportToImage (out_path f R)]) (raster_layers p)) \<and>
           stdout h' = stdout h @ map (\<lambda>R. ''Saved: '' @ out_path f R) (raster_layers p) @
             [''All styled images exported!''] \<and>
           layerTree h' = (if raster_layers p = [] then layerTree h
                           else isolated_tree p (last (raster_layers p)) (layerTree h)) \<and>
           dirs h' = (if isdir h (resolve f) then dirs h
                      else dirs h \<union> set (tl (prefixes (resolve f))))"
proof -
  let ?h1 = "h\<lparr>dirs := (if isdir h (resolve f) then dirs h
                         else dirs h \<union> set (tl (prefixes (resolve f)))),
               calls := calls h @ [MakeDirs f]\<rparr>"
  have m: "makedirs f True h = Inr ?h1" by (rule makedirs_Inr [OF c])
  have "layers_in_tree p ?h1" using t by (simp add: layers_in_tree_def)
  from export_loop_Inr [OF this subset_refl, of "layoutByName p n" f]
  obtain h2 where h2: "export_loop (layoutByName p n) f p (raster_layers p) ?h1 = Inr h2"
    "dirs h2 = dirs ?h1"
    "calls h2 = calls ?h1 @
       concat (map (\<lambda>R. isolate_calls p R @ [ExportToImage (out_path f R)]) (raster_layers p))"
    "stdout h2 = stdout ?h1 @ map (\<lambda>R. ''Saved: '' @ out_path f R) (raster_layers p)"
    "layerTree h2 = (if raster_layers p = [] then layerTree ?h1
                     else isolated_tree p (last (raster_layers p)) (layerTree ?h1))"
    by blast
  have "qgis_layout_export n f p h = Inr (print ''All styled images exported!'' h2)"
    unfolding qgis_layout_export_def m sum.case h2(1) ..
  then show ?thesis using h2(2-5) by (simp add: print_def)
qed

lemma makedirs_made: "creatable h f \<Longrightarrow> makedirs f True h = Inr (made h f)"
  unfolding made_def by (rule makedirs_Inr)

lemma layers_in_tree_made: "layers_in_tree p h \<Longrightarrow> layers_in_tree p (made h f)"
  by (simp add: layers_in_tree_def made_def)



subsection \<open>Visibility\<close>

lemma visible_layers_isolated:
  assumes d: "distinct (map layer_id (mapLayers p))" and R: "R \<in> set (raster_layers p)"
    and t: "layerTree h = isolated_tree p R t0"
  shows "visible_layers p h = insert R (set (vector_layers p))"
proof -
  from R have R': "R \<in> set (mapLayers p)" by (simp add: raster_layers_def)
  have "filter (isVisible h) (mapLayers p) =
        filter (\<lambda>l. l = R \<or> layer_type l \<noteq> RasterLayer) (mapLayers p)"
    unfolding isVisible_def [abs_def] t by (rule isolated_filter [OF d R])
  then show ?thesis using R' by (auto simp: visible_layers_def vector_layers_def)
qed

lemma hidden_isolated:
  assumes d: "distinct (map layer_id (mapLayers p))" and R: "R \<in> set (raster_layers p)"
    and t: "layerTree h = isolated_tree p R t0"
    and R': "R' \<in> set (raster_layers p)" and ne: "R' \<noteq> R"
  shows "\<not> isVisible h R'"
proof -
  from R' have "R' \<in> set (mapLayers p)" "layer_type R' = RasterLayer"
    by (simp_all add: raster_layers_def)
  with isolated_tree_visible [OF d R this(1), of t0] ne show ?thesis
    by (simp add: isVisible_def t)
qed

subsection \<open>Replaying calls\<close>

lemma fold_apply_set:
  "fold apply_call (map (\<lambda>l. SetItemVisibilityChecked (layer_id l) b) ls) t =
     (\<lambda>i. if i \<in> layer_id ` set ls then Some b else t i)"
  by (induction ls arbitrary: t) (auto simp: fun_eq_iff)

lemma fold_apply_isolate: "fold apply_call (isolate_calls p R) t = isolated_tree p R t"
  by (auto simp: isolate_calls_def fold_apply_set isolated_tree_def fun_eq_iff)

lemma fold_apply_loop:
  "set rs \<subseteq> set (raster_layers p) \<Longrightarrow>
   fold apply_call (concat (map (\<lambda>R. isolate_calls p R @ [ExportToImage (out_path f R)]) rs)) t =
     (if rs = [] then t else isolated_tree p (last rs) t)"
proof (induction rs arbitrary: t)
  case Nil
  then show ?case by simp
next
  case (Cons R rs)
  then have R: "R \<in> set (raster_layers p)" and rs: "set rs \<subseteq> set (raster_layers p)"
    by simp_all
  show ?case
    by (simp add: Cons.IH [OF rs] fold_apply_isolate isolated_tree_absorb [OF R])
qed

lemma fold_apply_unset:
  "SetItemVisibilityChecked i False \<notin> set cs \<Longrightarrow>
   fold apply_call cs t i = Some True \<or> fold apply_call cs t i = t i"
proof (induction cs arbitrary: t)
  case Nil
  then show ?case by simp
next
  case (Cons c cs)
  then have tl: "SetItemVisibilityChecked i False \<notin> set cs"
    and hd: "c \<noteq> SetItemVisibilityChecked i False" by auto
  from Cons.IH [OF tl, of "apply_call c t"]
  have "fold apply_call cs (apply_call c t) i = Some True \<or>
        fold apply_call cs (apply_call c t) i = apply_call c t i" .
  moreover have "apply_call c t i = Some True \<or> apply_call c t i = t i"
    using hd by (cases c) auto
  ultimately show ?case by auto
qed

lemma fold_apply_shown:
  "SetItemVisibilityChecked i False \<notin> set cs \<Longrightarrow>
   SetItemVisibilityChecked i True \<in> set cs \<Longrightarrow>
   fold apply_call cs t i = Some True"
proof (induction cs arbitrary: t)
  case Nil
  then show ?case by simp
next
  case (Cons c cs)
  from Cons.prems(1) have rest: "SetItemVisibilityChecked i False \<notin> set cs" by simp
  show ?case
  proof (cases "SetItemVisibilityChecked i True \<in> set cs")
    case True
    from Cons.IH [OF rest True, of "apply_call c t"] show ?thesis by simp
  next
    case False
    with Cons.prems(2) have c: "c = SetItemVisibilityChecked i True" by simp
    from fold_apply_unset [OF rest, of "apply_call c t"] show ?thesis by (auto simp: c)
  qed
qed

lemma shown_in_first_iteration:
  assumes V: "V \<in> set (vector_layers p)" and ne: "raster_layers p \<noteq> []"
  shows "SetItemVisibilityChecked (layer_id V) True \<in>
           set (take (length (raster_layers p) + length (vector_layers p) + 2)
             (MakeDirs f #
              concat (map (\<lambda>R. isolate_calls p R @ [ExportToImage (out_path f R)]) (raster_layers p))))"
proof -
  from ne obtain R0 rest where rs: "raster_layers p = R0 # rest" by (cases "raster_layers p") auto
  define pre where "pre = MakeDirs f #
      map (\<lambda>l. SetItemVisibilityChecked (layer_id l) False) (raster_layers p) @
      [SetItemVisibilityChecked (layer_id R0) True] @
      map (\<lambda>l. SetItemVisibilityChecked (layer_id l) True) (vector_layers p)"
  define post where "post = ReloadAllLayers # ExportToImage (out_path f R0) #
      concat (map (\<lambda>R. isolate_calls p R @ [ExportToImage (out_path f R)]) rest)"
  have len: "length pre = length (raster_layers p) + length (vector_layers p) + 2"
    by (simp add: pre_def)
  have "concat (map (\<lambda>R. isolate_calls p R @ [ExportToImage (out_path f R)]) (R0 # rest)) =
      isolate_calls p R0 @ [ExportToImage (out_path f R0)] @
      concat (map (\<lambda>R. isolate_calls p R @ [ExportToImage (out_path f R)]) rest)"
    by simp
  then have cs: "MakeDirs f #
      concat (map (\<lambda>R. isolate_calls p R @ [ExportToImage (out_path f R)]) (R0 # rest)) = pre @ post"
    by (simp add: pre_def post_def isolate_calls_def)
  have "take (length pre) (pre @ post) = pre" by simp
  moreover from V have "SetItemVisibilityChecked (layer_id V) True \<in> set pre"
    by (simp add: pre_def)
  ultimately have "SetItemVisibilityChecked (layer_id V) True \<in> set (take (length pre) (pre @ post))"
    by simp
  then show ?thesis
    unfolding len
    unfolding cs [symmetric]
    unfolding rs [symmetric] .
qed

lemma isolate_calls_False:
  "SetItemVisibilityChecked i False \<in> set (isolate_calls p R) \<Longrightarrow>
   i \<in> layer_id ` set (raster_layers p)"
  by (auto simp: isolate_calls_def)

lemma vector_id_not_raster:
  assumes d: "distinct (map layer_id (mapLayers p))" and V: "V \<in> set (vector_layers p)"
  shows "layer_id V \<notin> layer_id ` set (raster_layers p)"
proof
  assume "layer_id V \<in> layer_id ` set (raster_layers p)"
  then obtain R where R: "R \<in> set (raster_layers p)" "layer_id V = layer_id R" by auto
  from V R(1) have "V \<in> set (mapLayers p)" "R \<in> set (mapLayers p)"
    "layer_type V \<noteq> RasterLayer" "layer_type R = RasterLayer"
    by (simp_all add: vector_layers_def raster_layers_def)
  with layer_id_inj [OF d this(1,2) R(2)] show False by simp
qed



subsection \<open>Files\<close>










subsection \<open>The error branches\<close>

text \<open>
  The hypotheses of the properties below are needed: a layer without a node in the layer
  tree stops the script with \<^verbatim>\<open>AttributeError\<close>, and without \<^verbatim>\<open>exist_ok\<close> an existing
  output directory would stop it with \<^verbatim>\<open>FileExistsError\<close>.
\<close>

lemma setItemVisibilityChecked_no_node:
  "layerTree h i = None \<Longrightarrow> setItemVisibilityChecked i b h = Inl AttributeError"
  by (simp add: setItemVisibilityChecked_def)

lemma set_all_no_node:
  "l \<in> set ls \<Longrightarrow> layerTree h (layer_id l) = None \<Longrightarrow> set_all b ls h = Inl AttributeError"
proof (induction ls arbitrary: h)
  case Nil
  then show ?case by simp
next
  case (Cons a ls)
  show ?case
  proof (cases "layerTree h (layer_id a)")
    case None
    then show ?thesis by (simp add: setItemVisibilityChecked_def)
  next
    case (Some v)
    with Cons.prems have l: "l \<in> set ls" by auto
    let ?h = "h\<lparr>layerTree := (layerTree h)(layer_id a \<mapsto> b),
                calls := calls h @ [SetItemVisibilityChecked (layer_id a) b]\<rparr>"
    from Cons.prems(2) Some have "layerTree ?h (layer_id l) = None" by auto
    from Cons.IH [OF l this] Some show ?thesis
      by (simp add: setItemVisibilityChecked_def)
  qed
qed

lemma missing_raster_node_raises:
  assumes c: "creatable h f" and R: "R \<in> set (raster_layers p)"
    and none: "layerTree h (layer_id R) = None"
  shows "qgis_layout_export n f p h = Inl AttributeError"
proof -
  let ?h1 = "h\<lparr>dirs := (if isdir h (resolve f) then dirs h
                         else dirs h \<union> set (tl (prefixes (resolve f)))),
               calls := calls h @ [MakeDirs f]\<rparr>"
  from R obtain R0 rest where rs: "raster_layers p = R0 # rest" by (cases "raster_layers p") auto
  from none have "layerTree ?h1 (layer_id R) = None" by simp
  from set_all_no_node [OF R this]
  have "isolate_raster_layer p R0 ?h1 = Inl AttributeError"
    by (simp add: isolate_raster_layer_def)
  then show ?thesis
    by (simp add: qgis_layout_export_def makedirs_Inr [OF c] rs export_raster_layer_def)
qed

lemma makedirs_without_exist_ok:
  "f \<noteq> [] \<Longrightarrow> isdir h (resolve f) \<Longrightarrow> makedirs f False h = Inl FileExistsError"
  by (simp add: makedirs_def Let_def)

lemma makedirs_file_in_the_way:
  "f \<noteq> [] \<Longrightarrow> \<not> isdir h (resolve f) \<Longrightarrow> files h (resolve f) \<noteq> None \<Longrightarrow>
   makedirs f True h = Inl FileExistsError"
  by (simp add: makedirs_def Let_def)

subsection \<open>History independence\<close>

lemma isolated_tree_of_project:
  "l \<in> set (mapLayers p) \<Longrightarrow>
   isolated_tree p R t (layer_id l) = isolated_tree p R t' (layer_id l)"
  by (cases "layer_type l = RasterLayer")
    (simp_all add: isolated_tree_def raster_layers_def vector_layers_def image_iff, blast+)

subsection \<open>The small project\<close>

lemma example_distinct: "distinct (map layer_id (mapLayers example_project))"
  by (simp add: example_project_def dem1_def roads_def dem2_def)

lemma example_in_tree: "layers_in_tree example_project example_host"
  by (auto simp: layers_in_tree_def example_project_def example_host_def dem1_def roads_def dem2_def)

lemma example_rasters: "raster_layers example_project = [dem1, dem2]"
  by (simp add: raster_layers_def example_project_def dem1_def roads_def dem2_def)

lemma example_vectors: "vector_layers example_project = [roads]"
  by (simp add: vector_layers_def example_project_def dem1_def roads_def dem2_def)

lemma resolve_out_maps: "resolve ''out/maps'' = [''out'', ''maps'']"
  by (simp add: resolve_def)

lemma example_creatable: "creatable example_host ''out/maps''"
  by (simp add: creatable_def resolve_out_maps example_host_def)

lemma other_in_tree: "layers_in_tree example_project other_host"
  by (auto simp: layers_in_tree_def example_project_def other_host_def dem1_def roads_def dem2_def)

lemma other_creatable: "creatable other_host ''out/maps''"
  by (simp add: creatable_def resolve_out_maps other_host_def)

section \<open>The properties of the specification\<close>

text \<open>
  C1.  At the export step of the iteration for a raster layer \<open>R\<close> (after hiding all raster
  layers, showing \<open>R\<close>, showing the vector layers and the reload), the visible layers are
  exactly \<open>R\<close> and all non-raster layers; every other raster layer is hidden.  The run is
  taken apart around iteration \<open>i\<close>: \<open>h1\<close> is the state after the output directory is made,
  \<open>hi\<close> the state the loop has reached before the iteration, and \<open>h'\<close> the state after the
  visibility changes and the reload.  The loop body for \<open>R\<close> applies the exporter to this very
  \<open>h'\<close>, the picture it renders there shows exactly \<open>R\<close> and the non-raster layers, and the
  rest of the loop and the final line continue from the result to the result of the run.
\<close>

theorem visible_set_at_export_step:
  assumes d: "distinct (map layer_id (mapLayers p))" and t: "layers_in_tree p h"
    and c: "creatable h output_folder" and i: "i < length (raster_layers p)"
  shows "\<exists>h1 hi h' h2.
           makedirs output_folder True h = Inr h1 \<and>
           export_loop (layoutByName p layout_name) output_folder p (take i (raster_layers p)) h1 = Inr hi \<and>
           isolate_raster_layer p (raster_layers p ! i) hi = Inr h' \<and>
           visible_layers p h' = insert (raster_layers p ! i) (set (vector_layers p)) \<and>
           (\<forall>R' \<in> set (raster_layers p). R' \<noteq> raster_layers p ! i \<longrightarrow> \<not> isVisible h' R') \<and>
           filter (isVisible h') (mapLayers p) =
             filter (\<lambda>l. l = raster_layers p ! i \<or> layer_type l \<noteq> RasterLayer) (mapLayers p) \<and>
           export_raster_layer (layoutByName p layout_name) output_folder p (raster_layers p ! i) hi =
             Inr (print (''Saved: '' @ out_path output_folder (raster_layers p ! i))
                    (exportToImage (layoutByName p layout_name)
                       (out_path output_folder (raster_layers p ! i)) p h')) \<and>
           export_loop (layoutByName p layout_name) output_folder p (drop (Suc i) (raster_layers p))
               (print (''Saved: '' @ out_path output_folder (raster_layers p ! i))
                  (exportToImage (layoutByName p layout_name)
                     (out_path output_folder (raster_layers p ! i)) p h')) = Inr h2 \<and>
           qgis_layout_export layout_name output_folder p h =
             Inr (print ''All styled images exported!'' h2)"
proof -
  let ?R = "raster_layers p ! i"
  let ?lay = "layoutByName p layout_name"
  from i have R: "?R \<in> set (raster_layers p)" by simp
  then have R': "?R \<in> set (mapLayers p)" by (simp add: raster_layers_def)
  define h1 where "h1 = made h output_folder"
  have m: "makedirs output_folder True h = Inr h1"
    unfolding h1_def by (rule makedirs_made [OF c])
  have t1: "layers_in_tree p h1" unfolding h1_def by (rule layers_in_tree_made [OF t])
  from export_loop_Inr [OF t1 set_take_subset, of ?lay output_folder i]
  obtain hi where hi: "export_loop ?lay output_folder p (take i (raster_layers p)) h1 = Inr hi"
    "layers_in_tree p hi" by blast
  define k where "k = hi\<lparr>layerTree := isolated_tree p ?R (layerTree hi),
                         calls := calls hi @ isolate_calls p ?R\<rparr>"
  have iso: "isolate_raster_layer p ?R hi = Inr k"
    unfolding k_def by (rule isolate_raster_layer_Inr [OF hi(2) R'])
  have tree: "layerTree k = isolated_tree p ?R (layerTree hi)" by (simp add: k_def)
  have vis: "visible_layers p k = insert ?R (set (vector_layers p))"
    by (rule visible_layers_isolated [OF d R tree])
  have hid: "\<forall>R' \<in> set (raster_layers p). R' \<noteq> ?R \<longrightarrow> \<not> isVisible k R'"
    using hidden_isolated [OF d R tree] by blast
  have pic: "filter (isVisible k) (mapLayers p) =
      filter (\<lambda>l. l = ?R \<or> layer_type l \<noteq> RasterLayer) (mapLayers p)"
    unfolding isVisible_def [abs_def] tree by (rule isolated_filter [OF d R])
  define hb where "hb = print (''Saved: '' @ out_path output_folder ?R)
      (exportToImage ?lay (out_path output_folder ?R) p k)"
  have body: "export_raster_layer ?lay output_folder p ?R hi = Inr hb"
    by (simp add: export_raster_layer_def iso hb_def)
  have "layerTree hb = layerTree k"
    by (simp add: hb_def print_def exportToImage_def Let_def split: option.split)
  with hi(2) have tb: "layers_in_tree p hb"
    by (auto simp: layers_in_tree_def list_all_iff tree isolated_tree_def)
  from export_loop_Inr [OF tb set_drop_subset, of ?lay output_folder "Suc i"]
  obtain h2 where h2: "export_loop ?lay output_folder p (drop (Suc i) (raster_layers p)) hb = Inr h2"
    by blast
  have "export_loop ?lay output_folder p
          (take i (raster_layers p) @ ?R # drop (Suc i) (raster_layers p)) h1 = Inr h2"
    by (simp only: export_loop_append hi(1) sum.case export_loop.simps body h2)
  then have full: "export_loop ?lay output_folder p (raster_layers p) h1 = Inr h2"
    by (simp only: id_take_nth_drop [OF i, symmetric])
  have run: "qgis_layout_export layout_name output_folder p h =
      Inr (print ''All styled images exported!'' h2)"
    unfolding qgis_layout_export_def m sum.case full ..
  from m hi(1) iso vis hid pic body [unfolded hb_def] h2 [unfolded hb_def] run
  show ?thesis by blast
qed

theorem visible_set_at_export_step_witness:
  "distinct (map layer_id (mapLayers example_project)) \<and>
   layers_in_tree example_project example_host \<and>
   creatable example_host ''out/maps'' \<and>
   1 < length (raster_layers example_project) \<and>
   (\<exists>h1 hi h' h2.
      makedirs ''out/maps'' True example_host = Inr h1 \<and>
      export_loop (Some ''Layout_Name'') ''out/maps'' example_project [dem1] h1 = Inr hi \<and>
      isolate_raster_layer example_project dem2 hi = Inr h' \<and>
      visible_layers example_project h' = {dem2, roads} \<and>
      \<not> isVisible h' dem1 \<and>
      filter (isVisible h') (mapLayers example_project) = [roads, dem2] \<and>
      export_raster_layer (Some ''Layout_Name'') ''out/maps'' example_project dem2 hi =
        Inr (print ''Saved: out/maps/dem.png''
               (exportToImage (Some ''Layout_Name'') ''out/maps/dem.png'' example_project h')) \<and>
      export_loop (Some ''Layout_Name'') ''out/maps'' example_project []
          (print ''Saved: out/maps/dem.png''
             (exportToImage (Some ''Layout_Name'') ''out/maps/dem.png'' example_project h')) = Inr h2 \<and>
      qgis_layout_export ''Layout_Name'' ''out/maps'' example_project example_host =
        Inr (print ''All styled images exported!'' h2))"
proof -
  have i: "1 < length (raster_layers example_project)" by (simp add: example_rasters)
  have ne: "dem1 \<noteq> dem2" by (simp add: dem1_def dem2_def)
  have lay: "layoutByName example_project ''Layout_Name'' = Some ''Layout_Name''"
    by (simp add: layoutByName_def example_project_def)
  have path: "out_path ''out/maps'' dem2 = ''out/maps/dem.png''"
    by (simp add: out_path_def path_join_def dem2_def)
  have shown: "filter (\<lambda>l. l = dem2 \<or> layer_type l \<noteq> RasterLayer) (mapLayers example_project) =
      [roads, dem2]"
    by (simp add: example_project_def dem1_def roads_def dem2_def)
  from visible_set_at_export_step [OF example_distinct example_in_tree example_creatable i,
      of "''Layout_Name''"] ne
  have "\<exists>h1 hi h' h2.
      makedirs ''out/maps'' True example_host = Inr h1 \<and>
      export_loop (Some ''Layout_Name'') ''out/maps'' example_project [dem1] h1 = Inr hi \<and>
      isolate_raster_layer example_project dem2 hi = Inr h' \<and>
      visible_layers example_project h' = {dem2, roads} \<and>
      \<not> isVisible h' dem1 \<and>
      filter (isVisible h') (mapLayers example_project) = [roads, dem2] \<and>
      export_raster_layer (Some ''Layout_Name'') ''out/maps'' example_project dem2 hi =
        Inr (print ''Saved: out/maps/dem.png''
               (exportToImage (Some ''Layout_Name'') ''out/maps/dem.png'' example_project h')) \<and>
      export_loop (Some ''Layout_Name'') ''out/maps'' example_project []
          (print ''Saved: out/maps/dem.png''
             (exportToImage (Some ''Layout_Name'') ''out/maps/dem.png'' example_project h')) = Inr h2 \<and>
      qgis_layout_export ''Layout_Name'' ''out/maps'' example_project example_host =
        Inr (print ''All styled images exported!'' h2)"
    by (simp add: example_rasters example_vectors lay path shown)
  with example_distinct example_in_tree example_creatable i show ?thesis by blast
qed










text \<open>
  C4.  The loop never sets the visibility flag of a non-raster layer \<open>V\<close> to false.  \<open>cs\<close> are
  the calls of the run in their order, and replaying them on the layer tree of the start
  gives the layer tree of the end.  After every prefix of the calls the flag of \<open>V\<close> is true or
  still has the value the run started with: a flag that is true at the start is true at every
  point, and a flag that is not stays as it was until the first iteration shows the vector
  layers, which happens within the first calls of the run, and is true at every point from
  then on.
\<close>

theorem vector_layers_never_hidden:
  assumes d: "distinct (map layer_id (mapLayers p))" and t: "layers_in_tree p h"
    and c: "creatable h output_folder" and V: "V \<in> set (vector_layers p)"
  shows "\<exists>h' cs. qgis_layout_export layout_name output_folder p h = Inr h' \<and>
           calls h' = calls h @ cs \<and>
           layerTree h' = fold apply_call cs (layerTree h) \<and>
           SetItemVisibilityChecked (layer_id V) False \<notin> set cs \<and>
           (\<forall>k \<le> length cs.
              fold apply_call (take k cs) (layerTree h) (layer_id V) = Some True \<or>
              fold apply_call (take k cs) (layerTree h) (layer_id V) = layerTree h (layer_id V)) \<and>
           (layerTree h (layer_id V) = Some True \<longrightarrow>
              (\<forall>k \<le> length cs. fold apply_call (take k cs) (layerTree h) (layer_id V) = Some True)) \<and>
           (\<forall>k \<le> length cs.
              SetItemVisibilityChecked (layer_id V) True \<in> set (take k cs) \<longrightarrow>
              fold apply_call (take k cs) (layerTree h) (layer_id V) = Some True) \<and>
           (raster_layers p \<noteq> [] \<longrightarrow>
              SetItemVisibilityChecked (layer_id V) True \<in>
                set (take (length (raster_layers p) + length (vector_layers p) + 2) cs))"
proof -
  define cs where "cs = MakeDirs output_folder #
     concat (map (\<lambda>R. isolate_calls p R @ [ExportToImage (out_path output_folder R)]) (raster_layers p))"
  from qgis_layout_export_Inr [OF t c, of layout_name]
  obtain h' where h': "qgis_layout_export layout_name output_folder p h = Inr h'"
    "calls h' = calls h @ cs"
    "layerTree h' = (if raster_layers p = [] then layerTree h
                     else isolated_tree p (last (raster_layers p)) (layerTree h))"
    unfolding cs_def by blast
  have replay: "layerTree h' = fold apply_call cs (layerTree h)"
    by (simp add: cs_def h'(3) fold_apply_loop [OF subset_refl])
  have never: "SetItemVisibilityChecked (layer_id V) False \<notin> set cs"
    using vector_id_not_raster [OF d V] by (auto simp: cs_def dest: isolate_calls_False)
  have never_k: "SetItemVisibilityChecked (layer_id V) False \<notin> set (take k cs)" for k
    using never by (blast dest: in_set_takeD)
  have prefix: "\<forall>k \<le> length cs.
      fold apply_call (take k cs) (layerTree h) (layer_id V) = Some True \<or>
      fold apply_call (take k cs) (layerTree h) (layer_id V) = layerTree h (layer_id V)"
    using fold_apply_unset [OF never_k] by blast
  then have stays: "layerTree h (layer_id V) = Some True \<longrightarrow>
      (\<forall>k \<le> length cs. fold apply_call (take k cs) (layerTree h) (layer_id V) = Some True)"
    by metis
  have shown: "\<forall>k \<le> length cs.
      SetItemVisibilityChecked (layer_id V) True \<in> set (take k cs) \<longrightarrow>
      fold apply_call (take k cs) (layerTree h) (layer_id V) = Some True"
    using fold_apply_shown [OF never_k] by blast
  have early: "raster_layers p \<noteq> [] \<longrightarrow>
      SetItemVisibilityChecked (layer_id V) True \<in>
        set (take (length (raster_layers p) + length (vector_layers p) + 2) cs)"
    unfolding cs_def using shown_in_first_iteration [OF V] by blast
  from h'(1,2) replay never prefix stays shown early show ?thesis by blast
qed

theorem vector_layers_never_hidden_witness:
  "distinct (map layer_id (mapLayers example_project)) \<and>
   layers_in_tree example_project example_host \<and>
   creatable example_host ''out/maps'' \<and>
   roads \<in> set (vector_layers example_project) \<and>
   layerTree example_host ''v1'' = Some False \<and>
   (\<exists>h' cs. qgis_layout_export ''Layout_Name'' ''out/maps'' example_project example_host = Inr h' \<and>
      calls h' = cs \<and>
      SetItemVisibilityChecked ''v1'' False \<notin> set cs \<and>
      SetItemVisibilityChecked ''v1'' True \<in> set (take 5 cs) \<and>
      fold apply_call (take 5 cs) (layerTree example_host) ''v1'' = Some True \<and>
      layerTree h' ''v1'' = Some True)"
proof -
  have V: "roads \<in> set (vector_layers example_project)" by (simp add: example_vectors)
  have start: "layerTree example_host ''v1'' = Some False" "calls example_host = []"
    by (simp_all add: example_host_def)
  have id: "layer_id roads = ''v1''" by (simp add: roads_def)
  have ne: "raster_layers example_project \<noteq> []" by (simp add: example_rasters)
  have five: "length (raster_layers example_project) + length (vector_layers example_project) + 2 = 5"
    by (simp add: example_rasters example_vectors)
  from vector_layers_never_hidden [OF example_distinct example_in_tree example_creatable V,
      of "''Layout_Name''"]
  obtain h' cs where r:
    "qgis_layout_export ''Layout_Name'' ''out/maps'' example_project example_host = Inr h'"
    "calls h' = calls example_host @ cs"
    "layerTree h' = fold apply_call cs (layerTree example_host)"
    "SetItemVisibilityChecked (layer_id roads) False \<notin> set cs"
    "\<forall>k \<le> length cs.
       SetItemVisibilityChecked (layer_id roads) True \<in> set (take k cs) \<longrightarrow>
       fold apply_call (take k cs) (layerTree example_host) (layer_id roads) = Some True"
    "raster_layers example_project \<noteq> [] \<longrightarrow>
       SetItemVisibilityChecked (layer_id roads) True \<in>
         set (take (length (raster_layers example_project) + length (vector_layers example_project) + 2) cs)"
    by blast
  from r(6) [unfolded five id] ne
  have in5: "SetItemVisibilityChecked ''v1'' True \<in> set (take 5 cs)" by blast
  then have in_cs: "SetItemVisibilityChecked ''v1'' True \<in> set cs"
    by (auto dest: in_set_takeD)
  have kall: "fold apply_call (take k cs) (layerTree example_host) ''v1'' = Some True"
    if "k \<le> length cs" "SetItemVisibilityChecked ''v1'' True \<in> set (take k cs)" for k
    using r(5) that by (simp add: id)
  from kall [of "length cs"] in_cs
  have whole: "fold apply_call cs (layerTree example_host) ''v1'' = Some True" by simp
  then have end_: "layerTree h' ''v1'' = Some True" by (simp add: r(3))
  have at5: "fold apply_call (take 5 cs) (layerTree example_host) ''v1'' = Some True"
  proof (cases "5 \<le> length cs")
    case True
    with kall [of 5] in5 show ?thesis by blast
  next
    case False
    then have "take 5 cs = cs" by simp
    with whole show ?thesis by simp
  qed
  from r(1,2,4) in5 at5 end_ start(2) id
  have "\<exists>h' cs. qgis_layout_export ''Layout_Name'' ''out/maps'' example_project example_host = Inr h' \<and>
      calls h' = cs \<and>
      SetItemVisibilityChecked ''v1'' False \<notin> set cs \<and>
      SetItemVisibilityChecked ''v1'' True \<in> set (take 5 cs) \<and>
      fold apply_call (take 5 cs) (layerTree example_host) ''v1'' = Some True \<and>
      layerTree h' ''v1'' = Some True"
    by auto
  with example_distinct example_in_tree example_creatable V start(1) show ?thesis by blast
qed

text \<open>
  The vector layer of the small project is unchecked when the project is loaded.  The first
  four calls of the run are the making of the directory and the first three visibility
  changes of the first iteration, and after each of them the layer is still unchecked.
\<close>

theorem unchecked_vector_layer_during_first_iteration:
  "roads \<in> set (vector_layers example_project) \<and>
   \<not> isl (qgis_layout_export ''Layout_Name'' ''out/maps'' example_project example_host) \<and>
   take 4 (calls (projr (qgis_layout_export ''Layout_Name'' ''out/maps'' example_project example_host))) =
     [MakeDirs ''out/maps'', SetItemVisibilityChecked ''r1'' False,
      SetItemVisibilityChecked ''r2'' False, SetItemVisibilityChecked ''r1'' True] \<and>
   fold apply_call
     (take 1 (calls (projr (qgis_layout_export ''Layout_Name'' ''out/maps'' example_project example_host))))
     (layerTree example_host) (layer_id roads) = Some False \<and>
   fold apply_call
     (take 2 (calls (projr (qgis_layout_export ''Layout_Name'' ''out/maps'' example_project example_host))))
     (layerTree example_host) (layer_id roads) = Some False \<and>
   fold apply_call
     (take 3 (calls (projr (qgis_layout_export ''Layout_Name'' ''out/maps'' example_project example_host))))
     (layerTree example_host) (layer_id roads) = Some False \<and>
   fold apply_call
     (take 4 (calls (projr (qgis_layout_export ''Layout_Name'' ''out/maps'' example_project example_host))))
     (layerTree example_host) (layer_id roads) = Some False"
proof -
  have V: "roads \<in> set (vector_layers example_project)" by (simp add: example_vectors)
  have ids: "layer_id dem1 = ''r1''" "layer_id dem2 = ''r2''" "layer_id roads = ''v1''"
    by (simp_all add: dem1_def dem2_def roads_def)
  have tree: "layerTree example_host = [''r1'' \<mapsto> True, ''v1'' \<mapsto> False, ''r2'' \<mapsto> True]"
    by (simp add: example_host_def)
  from qgis_layout_export_Inr [OF example_in_tree example_creatable, of "''Layout_Name''"]
  obtain h' where h':
    "qgis_layout_export ''Layout_Name'' ''out/maps'' example_project example_host = Inr h'"
    "calls h' = calls example_host @ MakeDirs ''out/maps'' #
       concat (map (\<lambda>R. isolate_calls example_project R @ [ExportToImage (out_path ''out/maps'' R)])
         (raster_layers example_project))"
    by blast
  have four: "take 4 (calls h') =
      [MakeDirs ''out/maps'', SetItemVisibilityChecked ''r1'' False,
       SetItemVisibilityChecked ''r2'' False, SetItemVisibilityChecked ''r1'' True]"
    by (simp add: h'(2) example_rasters example_vectors isolate_calls_def ids example_host_def)
  have pre: "take 1 (calls h') = take 1 (take 4 (calls h'))"
    "take 2 (calls h') = take 2 (take 4 (calls h'))"
    "take 3 (calls h') = take 3 (take 4 (calls h'))"
    by simp_all
  have f1: "fold apply_call (take 1 (calls h')) (layerTree example_host) (layer_id roads) = Some False"
    unfolding pre four by (simp add: tree ids)
  have f2: "fold apply_call (take 2 (calls h')) (layerTree example_host) (layer_id roads) = Some False"
    unfolding pre four by (simp add: tree ids numeral_2_eq_2)
  have f3: "fold apply_call (take 3 (calls h')) (layerTree example_host) (layer_id roads) = Some False"
    unfolding pre four by (simp add: tree ids numeral_3_eq_3)
  have f4: "fold apply_call (take 4 (calls h')) (layerTree example_host) (layer_id roads) = Some False"
    unfolding four by (simp add: tree ids)
  from V four f1 f2 f3 f4 show ?thesis unfolding h'(1) by simp
qed

text \<open>
  C5.  With no raster layer, a run whose output directory can be made makes no export call
  (its only call is the one that makes the directory), writes no file, and prints exactly one
  line, the final summary.  A run whose output directory cannot be made raises before
  anything is printed.
\<close>

theorem no_raster_layers_only_summary:
  assumes e: "raster_layers p = []"
  shows "(creatable h output_folder \<longrightarrow>
            (\<exists>h'. qgis_layout_export layout_name output_folder p h = Inr h' \<and>
               calls h' = calls h @ [MakeDirs output_folder] \<and>
               stdout h' = stdout h @ [''All styled images exported!''] \<and>
               files h' = files h)) \<and>
         (\<not> creatable h output_folder \<longrightarrow>
            (\<exists>e. qgis_layout_export layout_name output_folder p h = Inl e))"
proof (intro conjI impI)
  assume c: "creatable h output_folder"
  show "\<exists>h'. qgis_layout_export layout_name output_folder p h = Inr h' \<and>
          calls h' = calls h @ [MakeDirs output_folder] \<and>
          stdout h' = stdout h @ [''All styled images exported!''] \<and>
          files h' = files h"
    unfolding qgis_layout_export_def makedirs_Inr [OF c] e
    by (simp add: print_def)
next
  assume "\<not> creatable h output_folder"
  from makedirs_Inl [OF this] obtain e where "makedirs output_folder True h = Inl e" ..
  then show "\<exists>e. qgis_layout_export layout_name output_folder p h = Inl e"
    by (simp add: qgis_layout_export_def)
qed

theorem no_raster_layers_only_summary_witness:
  "raster_layers vector_project = [] \<and>
   creatable example_host ''out/maps'' \<and>
   (\<exists>h'. qgis_layout_export ''Layout_Name'' ''out/maps'' vector_project example_host = Inr h' \<and>
      calls h' = [MakeDirs ''out/maps''] \<and>
      stdout h' = [''All styled images exported!''] \<and>
      files h' = Map.empty)"
proof -
  have e: "raster_layers vector_project = []"
    by (simp add: raster_layers_def vector_project_def roads_def)
  from no_raster_layers_only_summary [OF e, of example_host "''out/maps''" "''Layout_Name''"]
    example_creatable
  have "\<exists>h'. qgis_layout_export ''Layout_Name'' ''out/maps'' vector_project example_host = Inr h' \<and>
      calls h' = [MakeDirs ''out/maps''] \<and>
      stdout h' = [''All styled images exported!''] \<and>
      files h' = Map.empty"
    by (simp add: example_host_def)
  with e example_creatable show ?thesis by blast
qed

text \<open>
  C6.  The first call of a run makes the output directory, before any export.  When the
  path is not empty and either is a directory already or has no file at it or on the way
  to it, the call does not fail (in particular not when the directory exists), the whole
  run succeeds, and in the state \<open>h1\<close> in which the loop starts the output directory
  exists; when it was absent, it exists together with all its parent directories.  No
  directory is removed.
\<close>

theorem output_directory_created:
  assumes t: "layers_in_tree p h" and ne: "output_folder \<noteq> []"
    and ok: "isdir h (resolve output_folder) \<or>
             \<not> list_ex (\<lambda>q. files h q \<noteq> None) (tl (prefixes (resolve output_folder)))"
  shows "\<exists>h1 h' cs. makedirs output_folder True h = Inr h1 \<and>
           calls h1 = calls h @ [MakeDirs output_folder] \<and>
           isdir h1 (resolve output_folder) \<and>
           (\<not> isdir h (resolve output_folder) \<longrightarrow>
              list_all (isdir h1) (prefixes (resolve output_folder))) \<and>
           (isdir h (resolve output_folder) \<longrightarrow> dirs h1 = dirs h) \<and>
           qgis_layout_export layout_name output_folder p h = Inr h' \<and>
           calls h' = calls h1 @ cs \<and> MakeDirs output_folder \<notin> set cs \<and>
           dirs h' = dirs h1 \<and> dirs h \<subseteq> dirs h'"
proof -
  from ne ok have c: "creatable h output_folder" by (simp add: creatable_def)
  define h1 where "h1 = h\<lparr>dirs := (if isdir h (resolve output_folder) then dirs h
                         else dirs h \<union> set (tl (prefixes (resolve output_folder)))),
               calls := calls h @ [MakeDirs output_folder]\<rparr>"
  define cs where "cs = concat (map (\<lambda>R. isolate_calls p R @ [ExportToImage (out_path output_folder R)])
               (raster_layers p))"
  have m: "makedirs output_folder True h = Inr h1"
    unfolding h1_def by (rule makedirs_Inr [OF c])
  have calls1: "calls h1 = calls h @ [MakeDirs output_folder]" by (simp add: h1_def)
  have dirs1: "dirs h1 = (if isdir h (resolve output_folder) then dirs h
                          else dirs h \<union> set (tl (prefixes (resolve output_folder))))"
    by (simp add: h1_def)
  have target: "isdir h1 (resolve output_folder)"
  proof (cases "isdir h (resolve output_folder)")
    case True
    then show ?thesis by (simp add: isdir_def dirs1)
  next
    case False
    then have "resolve output_folder \<noteq> []" by (auto simp: isdir_def)
    then have "resolve output_folder \<in> set (tl (prefixes (resolve output_folder)))"
      by (cases "resolve output_folder") simp_all
    with False show ?thesis by (simp add: isdir_def dirs1)
  qed
  have parents: "\<not> isdir h (resolve output_folder) \<longrightarrow>
      list_all (isdir h1) (prefixes (resolve output_folder))"
  proof
    assume absent: "\<not> isdir h (resolve output_folder)"
    have "isdir h1 q" if "q \<in> set (prefixes (resolve output_folder))" for q
    proof (cases "q = []")
      case True
      then show ?thesis by (simp add: isdir_def)
    next
      case False
      have "set (prefixes (resolve output_folder)) =
          insert [] (set (tl (prefixes (resolve output_folder))))"
        by (cases "resolve output_folder") auto
      with that False have "q \<in> set (tl (prefixes (resolve output_folder)))" by simp
      with absent show ?thesis by (simp add: isdir_def dirs1)
    qed
    then show "list_all (isdir h1) (prefixes (resolve output_folder))"
      by (simp add: list_all_iff)
  qed
  have same: "isdir h (resolve output_folder) \<longrightarrow> dirs h1 = dirs h" by (simp add: dirs1)
  from qgis_layout_export_Inr [OF t c, of layout_name]
  obtain h' where h': "qgis_layout_export layout_name output_folder p h = Inr h'"
    "calls h' = calls h @ MakeDirs output_folder # cs"
    "dirs h' = (if isdir h (resolve output_folder) then dirs h
                else dirs h \<union> set (tl (prefixes (resolve output_folder))))"
    unfolding cs_def by blast
  have no_more: "MakeDirs output_folder \<notin> set cs"
    by (auto simp: cs_def isolate_calls_def)
  have calls': "calls h' = calls h1 @ cs" by (simp add: h'(2) calls1)
  have dirs': "dirs h' = dirs h1" by (simp add: h'(3) dirs1)
  have mono: "dirs h \<subseteq> dirs h'" by (auto simp: h'(3))
  from m calls1 target parents same h'(1) calls' no_more dirs' mono show ?thesis
    by blast
qed

theorem output_directory_created_witness:
  "layers_in_tree example_project example_host \<and>
   \<not> isdir example_host (resolve ''out/maps'') \<and>
   (\<exists>h1 h'. makedirs ''out/maps'' True example_host = Inr h1 \<and>
      isdir h1 [''out''] \<and> isdir h1 [''out'', ''maps''] \<and>
      qgis_layout_export ''Layout_Name'' ''out/maps'' example_project example_host = Inr h' \<and>
      dirs h' = dirs h1) \<and>
   layers_in_tree example_project other_host \<and>
   isdir other_host (resolve ''out'') \<and>
   (\<exists>h1 h'. makedirs ''out'' True other_host = Inr h1 \<and>
      dirs h1 = {[''out'']} \<and>
      qgis_layout_export ''Layout_Name'' ''out'' example_project other_host = Inr h' \<and>
      dirs h' = {[''out'']})"
proof -
  have ne: "''out/maps'' \<noteq> []" "''out'' \<noteq> []" by simp_all
  have absent: "\<not> isdir example_host (resolve ''out/maps'')"
    by (simp add: isdir_def resolve_out_maps example_host_def)
  have ok1: "isdir example_host (resolve ''out/maps'') \<or>
      \<not> list_ex (\<lambda>q. files example_host q \<noteq> None) (tl (prefixes (resolve ''out/maps'')))"
    by (simp add: resolve_out_maps example_host_def)
  have res: "resolve ''out'' = [''out'']" by (simp add: resolve_def)
  have there: "isdir other_host (resolve ''out'')"
    by (simp add: isdir_def res other_host_def)
  then have ok2: "isdir other_host (resolve ''out'') \<or>
      \<not> list_ex (\<lambda>q. files other_host q \<noteq> None) (tl (prefixes (resolve ''out'')))" ..
  from output_directory_created [OF example_in_tree ne(1) ok1, of "''Layout_Name''"] absent
  have a: "\<exists>h1 h'. makedirs ''out/maps'' True example_host = Inr h1 \<and>
      isdir h1 [''out''] \<and> isdir h1 [''out'', ''maps''] \<and>
      qgis_layout_export ''Layout_Name'' ''out/maps'' example_project example_host = Inr h' \<and>
      dirs h' = dirs h1"
    by (auto simp: resolve_out_maps)
  from output_directory_created [OF other_in_tree ne(2) ok2, of "''Layout_Name''"] there
  have b: "\<exists>h1 h'. makedirs ''out'' True other_host = Inr h1 \<and>
      dirs h1 = {[''out'']} \<and>
      qgis_layout_export ''Layout_Name'' ''out'' example_project other_host = Inr h' \<and>
      dirs h' = {[''out'']}"
    by (auto simp: other_host_def)
  from a b example_in_tree other_in_tree absent there show ?thesis by blast
qed

text \<open>
  C7.  The calls of a run, in their order: the output directory is made, and then for each
  raster layer \<open>R\<close> in turn all visibility changes come first (every raster layer unchecked,
  \<open>R\<close> checked, every non-raster layer checked), then the reload, and only then the export
  of the layout for \<open>R\<close>.
\<close>

theorem visibility_then_reload_then_export:
  assumes t: "layers_in_tree p h" and c: "creatable h output_folder"
  shows "\<exists>h'. qgis_layout_export layout_name output_folder p h = Inr h' \<and>
           calls h' = calls h @ MakeDirs output_folder #
             concat (map (\<lambda>R.
                 map (\<lambda>l. SetItemVisibilityChecked (layer_id l) False) (raster_layers p) @
                 [SetItemVisibilityChecked (layer_id R) True] @
                 map (\<lambda>l. SetItemVisibilityChecked (layer_id l) True) (vector_layers p) @
                 [ReloadAllLayers, ExportToImage (out_path output_folder R)])
               (raster_layers p))"
  using qgis_layout_export_Inr [OF t c, of layout_name]
  by (auto simp: isolate_calls_def)

theorem visibility_then_reload_then_export_witness:
  "layers_in_tree example_project example_host \<and>
   creatable example_host ''out/maps'' \<and>
   (\<exists>h'. qgis_layout_export ''Layout_Name'' ''out/maps'' example_project example_host = Inr h' \<and>
      calls h' =
        [MakeDirs ''out/maps'',
         SetItemVisibilityChecked ''r1'' False, SetItemVisibilityChecked ''r2'' False,
         SetItemVisibilityChecked ''r1'' True, SetItemVisibilityChecked ''v1'' True,
         ReloadAllLayers, ExportToImage ''out/maps/dem.png'',
         SetItemVisibilityChecked ''r1'' False, SetItemVisibilityChecked ''r2'' False,
         SetItemVisibilityChecked ''r2'' True, SetItemVisibilityChecked ''v1'' True,
         ReloadAllLayers, ExportToImage ''out/maps/dem.png''])"
proof -
  have paths: "out_path ''out/maps'' dem1 = ''out/maps/dem.png''"
    "out_path ''out/maps'' dem2 = ''out/maps/dem.png''"
    by (simp_all add: out_path_def path_join_def dem1_def dem2_def)
  have ids: "layer_id dem1 = ''r1''" "layer_id dem2 = ''r2''" "layer_id roads = ''v1''"
    by (simp_all add: dem1_def dem2_def roads_def)
  from visibility_then_reload_then_export [OF example_in_tree example_creatable, of "''Layout_Name''"]
  have "\<exists>h'. qgis_layout_export ''Layout_Name'' ''out/maps'' example_project example_host = Inr h' \<and>
      calls h' =
        [MakeDirs ''out/maps'',
         SetItemVisibilityChecked ''r1'' False, SetItemVisibilityChecked ''r2'' False,
         SetItemVisibilityChecked ''r1'' True, SetItemVisibilityChecked ''v1'' True,
         ReloadAllLayers, ExportToImage ''out/maps/dem.png'',
         SetItemVisibilityChecked ''r1'' False, SetItemVisibilityChecked ''r2'' False,
         SetItemVisibilityChecked ''r2'' True, SetItemVisibilityChecked ''v1'' True,
         ReloadAllLayers, ExportToImage ''out/maps/dem.png'']"
    by (simp add: example_rasters example_vectors paths ids example_host_def)
  with example_in_tree example_creatable show ?thesis by blast
qed

text \<open>
  C8.  The visibility changes are not undone when the loop ends: after a run over at least
  one raster layer the visible layers are exactly the last raster layer and all non-raster
  layers, whatever the flags were when the run started.
\<close>

theorem last_raster_layer_left_visible:
  assumes d: "distinct (map layer_id (mapLayers p))" and t: "layers_in_tree p h"
    and c: "creatable h output_folder" and ne: "raster_layers p \<noteq> []"
  shows "\<exists>h'. qgis_layout_export layout_name output_folder p h = Inr h' \<and>
           visible_layers p h' = insert (last (raster_layers p)) (set (vector_layers p)) \<and>
           (\<forall>R \<in> set (raster_layers p). R \<noteq> last (raster_layers p) \<longrightarrow> \<not> isVisible h' R)"
proof -
  from qgis_layout_export_Inr [OF t c, of layout_name] ne
  obtain h' where h': "qgis_layout_export layout_name output_folder p h = Inr h'"
    "layerTree h' = isolated_tree p (last (raster_layers p)) (layerTree h)"
    by auto
  from ne have R: "last (raster_layers p) \<in> set (raster_layers p)" by simp
  have "visible_layers p h' = insert (last (raster_layers p)) (set (vector_layers p))"
    by (rule visible_layers_isolated [OF d R h'(2)])
  moreover have "\<forall>R \<in> set (raster_layers p). R \<noteq> last (raster_layers p) \<longrightarrow> \<not> isVisible h' R"
    using hidden_isolated [OF d R h'(2)] by blast
  ultimately show ?thesis using h'(1) by blast
qed

theorem last_raster_layer_left_visible_witness:
  "distinct (map layer_id (mapLayers example_project)) \<and>
   layers_in_tree example_project example_host \<and>
   creatable example_host ''out/maps'' \<and>
   raster_layers example_project \<noteq> [] \<and>
   visible_layers example_project example_host = {dem1, dem2} \<and>
   (\<exists>h'. qgis_layout_export ''Layout_Name'' ''out/maps'' example_project example_host = Inr h' \<and>
      visible_layers example_project h' = {dem2, roads} \<and> \<not> isVisible h' dem1)"
proof -
  have ne: "raster_layers example_project \<noteq> []" by (simp add: example_rasters)
  have before: "visible_layers example_project example_host = {dem1, dem2}"
    by (simp add: visible_layers_def isVisible_def example_project_def example_host_def
        dem1_def roads_def dem2_def)
  have "dem1 \<noteq> dem2" by (simp add: dem1_def dem2_def)
  with last_raster_layer_left_visible [OF example_distinct example_in_tree example_creatable ne,
      of "''Layout_Name''"]
  have "\<exists>h'. qgis_layout_export ''Layout_Name'' ''out/maps'' example_project example_host = Inr h' \<and>
      visible_layers example_project h' = {dem2, roads} \<and> \<not> isVisible h' dem1"
    by (simp add: example_rasters example_vectors)
  with example_distinct example_in_tree example_creatable ne before show ?thesis by blast
qed

text \<open>
  C9.  The first half of the loop body forgets the visibility it starts from: run for the
  same raster layer \<open>R\<close> from any two states of the host, it reaches the same flag for every
  layer of the project, and so the same set of visible layers.
\<close>

theorem isolation_is_history_independent:
  assumes t1: "layers_in_tree p h1" and t2: "layers_in_tree p h2"
    and R: "R \<in> set (raster_layers p)"
  shows "\<exists>h1' h2'. isolate_raster_layer p R h1 = Inr h1' \<and>
           isolate_raster_layer p R h2 = Inr h2' \<and>
           (\<forall>l \<in> set (mapLayers p). layerTree h1' (layer_id l) = layerTree h2' (layer_id l)) \<and>
           visible_layers p h1' = visible_layers p h2'"
proof -
  from R have R': "R \<in> set (mapLayers p)" by (simp add: raster_layers_def)
  define k1 where "k1 = h1\<lparr>layerTree := isolated_tree p R (layerTree h1),
                          calls := calls h1 @ isolate_calls p R\<rparr>"
  define k2 where "k2 = h2\<lparr>layerTree := isolated_tree p R (layerTree h2),
                          calls := calls h2 @ isolate_calls p R\<rparr>"
  have i1: "isolate_raster_layer p R h1 = Inr k1"
    unfolding k1_def by (rule isolate_raster_layer_Inr [OF t1 R'])
  have i2: "isolate_raster_layer p R h2 = Inr k2"
    unfolding k2_def by (rule isolate_raster_layer_Inr [OF t2 R'])
  have flags: "\<forall>l \<in> set (mapLayers p). layerTree k1 (layer_id l) = layerTree k2 (layer_id l)"
    by (simp add: k1_def k2_def isolated_tree_of_project [of _ p R "layerTree h1" "layerTree h2"])
  then have "filter (isVisible k1) (mapLayers p) = filter (isVisible k2) (mapLayers p)"
    by (intro filter_cong [OF refl]) (simp add: isVisible_def)
  then have "visible_layers p k1 = visible_layers p k2" by (simp add: visible_layers_def)
  with i1 i2 flags show ?thesis by blast
qed

theorem isolation_is_history_independent_witness:
  "layers_in_tree example_project example_host \<and>
   layers_in_tree example_project other_host \<and>
   dem1 \<in> set (raster_layers example_project) \<and>
   visible_layers example_project example_host \<noteq> visible_layers example_project other_host \<and>
   (\<exists>h1' h2'. isolate_raster_layer example_project dem1 example_host = Inr h1' \<and>
      isolate_raster_layer example_project dem1 other_host = Inr h2' \<and>
      layerTree h1' ''r1'' = layerTree h2' ''r1'' \<and>
      layerTree h1' ''v1'' = layerTree h2' ''v1'' \<and>
      layerTree h1' ''r2'' = layerTree h2' ''r2'' \<and>
      visible_layers example_project h1' = visible_layers example_project h2')"
proof -
  have R: "dem1 \<in> set (raster_layers example_project)" by (simp add: example_rasters)
  have differ: "visible_layers example_project example_host \<noteq> visible_layers example_project other_host"
    by (simp add: visible_layers_def isVisible_def example_project_def example_host_def
        other_host_def dem1_def roads_def dem2_def)
  from isolation_is_history_independent [OF example_in_tree other_in_tree R]
  have "\<exists>h1' h2'. isolate_raster_layer example_project dem1 example_host = Inr h1' \<and>
      isolate_raster_layer example_project dem1 other_host = Inr h2' \<and>
      layerTree h1' ''r1'' = layerTree h2' ''r1'' \<and>
      layerTree h1' ''v1'' = layerTree h2' ''v1'' \<and>
      layerTree h1' ''r2'' = layerTree h2' ''r2'' \<and>
      visible_layers example_project h1' = visible_layers example_project h2'"
    by (simp add: example_project_def dem1_def roads_def dem2_def)
  with example_in_tree other_in_tree R differ show ?thesis by blast
qed

text \<open>
  C10.  \<open>configure_logger\<close> is idempotent on the sink configuration of the logger: after one
  call and after two calls the logger has exactly one handler, the standard-output sink
  with the same format.  (The handler ids differ: each call takes a fresh id.)
\<close>

theorem configure_logger_idempotent_on_sinks:
  "sinks (configure_logger (configure_logger L)) = sinks (configure_logger L) \<and>
   sinks (configure_logger L) =
     [\<lparr>sink = Stdout, colorize = Some True,
       format = ''<green>{time:HH:mm:ss}</green> | <level>{level}</level> | <level>{message}</level>''\<rparr>] \<and>
   length (handlers (configure_logger (configure_logger L))) = 1 \<and>
   handlers_count (configure_logger (configure_logger L)) = Suc (handlers_count (configure_logger L))"
  by (simp add: configure_logger_def logger_add_def logger_remove_def sinks_def)

end
